theory Spec2Isabelle
  imports Complex_Main "HOL-Library.List_Lexorder" "HOL-Library.Multiset"
begin

section \<open>Data model\<close>

text \<open>
  The module under study is \<^verbatim>\<open>graphrag/query/context_builder/community_context.py\<close>.
  Python values stored in a report's attribute dictionary are \<^verbatim>\<open>Any\<close>; the values this
  module itself writes are an \<^verbatim>\<open>int\<close> (the raw weight) and a \<^verbatim>\<open>float\<close> (the normalised
  weight). Floats are idealised as rationals: NaN, infinities and rounding are outside
  the model.
\<close>

datatype pyval = PInt int | PFloat rat | PStr string

datatype error = ZeroDivisionError | ValueError | KeyError | IndexError

text \<open>
  A Python \<^verbatim>\<open>dict\<close> keeps insertion order, and the header of the context table is read
  from \<^verbatim>\<open>attributes.keys()\<close>, so the attribute dictionary is an association list.
\<close>

type_synonym attrs = "(string \<times> pyval) list"

text \<open>
  Modelled from the spec: the declarations of \<^verbatim>\<open>CommunityReport\<close> and \<^verbatim>\<open>Entity\<close>
  (\<^verbatim>\<open>graphrag.model\<close>) are not among the sources; the fields are those of the data model
  of the specification. \<^verbatim>\<open>rank\<close> and \<^verbatim>\<open>attributes\<close> may be absent (\<^verbatim>\<open>None\<close>), and the code
  tests \<^verbatim>\<open>community_ids\<close> for absence as well.
\<close>

record CommunityReport =
  short_id :: string
  title :: string
  community_id :: string
  summary :: string
  full_content :: string
  rank :: "rat option"
  attributes :: "attrs option"

record Entity =
  community_ids :: "string list option"
  text_unit_ids :: "string list"

text \<open>\<^verbatim>\<open>d[k] = v\<close>: an existing key keeps its position, a new key goes last.\<close>

fun dict_set :: "string \<Rightarrow> pyval \<Rightarrow> attrs \<Rightarrow> attrs" where
  "dict_set k v [] = [(k, v)]"
| "dict_set k v (p # d) = (if fst p = k then (k, v) # d else p # dict_set k v d)"

text \<open>Truthiness of \<^verbatim>\<open>report.attributes\<close>: \<^verbatim>\<open>None\<close> and the empty dict are false.\<close>

definition attrs_truthy :: "attrs option \<Rightarrow> bool" where
  "attrs_truthy a = (case a of None \<Rightarrow> False | Some d \<Rightarrow> d \<noteq> [])"

section \<open>The weight computer: \<^verbatim>\<open>_compute_community_weights\<close>\<close>

text \<open>
  Lines 206--214: \<^verbatim>\<open>community_text_units\<close> maps a community id to the list of text unit
  ids of the entities that list it. Only \<^verbatim>\<open>.get\<close> reads the dictionary, so a map suffices.
\<close>

definition add_community ::
  "string list \<Rightarrow> string \<Rightarrow> (string \<rightharpoonup> string list) \<Rightarrow> (string \<rightharpoonup> string list)" where
  "add_community units cid m =
     m(cid \<mapsto> (case m cid of None \<Rightarrow> [] | Some l \<Rightarrow> l) @ units)"

definition add_entity :: "Entity \<Rightarrow> (string \<rightharpoonup> string list) \<Rightarrow> (string \<rightharpoonup> string list)" where
  "add_entity e m =
     (case community_ids e of
        None \<Rightarrow> m
      | Some cids \<Rightarrow> fold (add_community (text_unit_ids e)) cids m)"

definition community_text_units :: "Entity list \<Rightarrow> (string \<rightharpoonup> string list)" where
  "community_text_units entities = fold add_entity entities Map.empty"

text \<open>Line 221--223: \<^verbatim>\<open>len(set(community_text_units.get(report.community_id, [])))\<close>.\<close>

definition raw_weight :: "(string \<rightharpoonup> string list) \<Rightarrow> CommunityReport \<Rightarrow> int" where
  "raw_weight ctu r =
     int (length (remdups (case ctu (community_id r) of None \<Rightarrow> [] | Some l \<Rightarrow> l)))"

text \<open>
  Lines 219--221: a falsy \<^verbatim>\<open>attributes\<close> is replaced by a fresh dict, then the key is set.
\<close>

definition set_weight :: "string \<Rightarrow> pyval \<Rightarrow> CommunityReport \<Rightarrow> CommunityReport" where
  "set_weight key v r =
     r\<lparr>attributes := Some (dict_set key v (case attributes r of None \<Rightarrow> [] | Some d \<Rightarrow> d))\<rparr>"

definition get_weight :: "string \<Rightarrow> CommunityReport \<Rightarrow> pyval option" where
  "get_weight key r = (case attributes r of None \<Rightarrow> None | Some d \<Rightarrow> map_of d key)"

text \<open>Lines 206--223, the first pass: every report receives its raw weight.\<close>

definition assign_raw_weights ::
  "CommunityReport list \<Rightarrow> Entity list \<Rightarrow> string \<Rightarrow> CommunityReport list" where
  "assign_raw_weights reports entities key =
     map (\<lambda>r. set_weight key (PInt (raw_weight (community_text_units entities) r)) r) reports"

text \<open>
  The number read back by \<^verbatim>\<open>report.attributes[weight_attribute]\<close> in the second pass.
  The first pass has just stored an \<^verbatim>\<open>int\<close> under the key in every report, so the last
  case is never reached from \<open>compute_community_weights\<close>.
\<close>

definition weight_value :: "string \<Rightarrow> CommunityReport \<Rightarrow> rat" where
  "weight_value key r =
     (case get_weight key r of
        Some (PInt n) \<Rightarrow> of_int n
      | Some (PFloat q) \<Rightarrow> q
      | _ \<Rightarrow> 0)"

text \<open>
  The whole function. The reports are mutated in place, so the result is the list of
  reports as the caller sees it afterwards, together with the exception raised, if any.
  \<^verbatim>\<open>max\<close> of an empty list raises \<^verbatim>\<open>ValueError\<close>; \<^verbatim>\<open>x / max_weight\<close> raises
  \<^verbatim>\<open>ZeroDivisionError\<close> at the first report when \<^verbatim>\<open>max_weight\<close> is \<^verbatim>\<open>0\<close>, and then no
  report has been divided yet. Each report is taken to be its own object (no report
  occurs twice in the list).
\<close>

definition compute_community_weights ::
  "CommunityReport list \<Rightarrow> Entity list \<Rightarrow> string \<Rightarrow> bool
     \<Rightarrow> CommunityReport list \<times> error option" where
  "compute_community_weights reports entities weight_attribute normalize_flag =
     (let reports1 = assign_raw_weights reports entities weight_attribute in
      if normalize_flag then
        (let all_weights =
               map (weight_value weight_attribute)
                 (filter (\<lambda>r. attrs_truthy (attributes r)) reports1)
         in if all_weights = [] then (reports1, Some ValueError)
            else
              (let max_weight = Max (set all_weights) in
               if max_weight = 0 then (reports1, Some ZeroDivisionError)
               else
                 (map (\<lambda>r. if attrs_truthy (attributes r)
                           then set_weight weight_attribute
                                  (PFloat (weight_value weight_attribute r / max_weight)) r
                           else r) reports1,
                  None)))
      else (reports1, None))"

section \<open>The report filter\<close>

text \<open>
  Line 70: \<^verbatim>\<open>report.rank and report.rank >= min_community_rank\<close>. The first conjunct is
  Python truthiness: \<^verbatim>\<open>None\<close> and \<^verbatim>\<open>0\<close> are both false.
\<close>

definition keep_report :: "int \<Rightarrow> CommunityReport \<Rightarrow> bool" where
  "keep_report min_community_rank r =
     (case rank r of
        None \<Rightarrow> False
      | Some x \<Rightarrow> x \<noteq> 0 \<and> x \<ge> of_int min_community_rank)"

definition select_reports :: "int \<Rightarrow> CommunityReport list \<Rightarrow> CommunityReport list" where
  "select_reports min_community_rank reports = filter (keep_report min_community_rank) reports"

section \<open>External collaborators\<close>

text \<open>
  Functions the module calls and does not define: the token counter (\<^verbatim>\<open>num_tokens\<close> with
  the caller's encoder, a length and so a natural number), Python's \<^verbatim>\<open>str\<close>, the parsing
  done by pandas' \<^verbatim>\<open>astype(float)\<close> (\<open>None\<close> where it raises), the row order chosen by
  pandas' \<^verbatim>\<open>sort_values(by=..., ascending=False)\<close> (as the list of row positions, computed
  from the rows' keys), \<^verbatim>\<open>DataFrame.to_csv(index=False, sep=...)\<close>, the seeded
  \<^verbatim>\<open>random.shuffle\<close> and \<^verbatim>\<open>str.lower\<close>. They are parameters of the model. The
  column delimiter is taken to be one that \<^verbatim>\<open>to_csv\<close> accepts (pandas wants a single
  character).
\<close>

datatype cell = CStr string | CNum rat

record DataFrame =
  columns :: "string list"
  rows :: "cell list list"

record ext =
  num_tokens :: "string \<Rightarrow> nat"
  py_str :: "pyval \<Rightarrow> string"
  parse_float :: "string \<Rightarrow> rat option"
  argsort_desc :: "rat list list \<Rightarrow> nat list"
  to_csv :: "string \<Rightarrow> DataFrame \<Rightarrow> string"
  shuffle :: "int \<Rightarrow> CommunityReport list \<Rightarrow> CommunityReport list"
  lower :: "string \<Rightarrow> string"

section \<open>The table sorter: \<^verbatim>\<open>_rank_report_context\<close> and \<^verbatim>\<open>_convert_report_context_to_df\<close>\<close>

definition empty_df :: DataFrame where
  "empty_df = \<lparr>columns = [], rows = []\<rparr>"

definition bind_err :: "error + 'a \<Rightarrow> ('a \<Rightarrow> error + 'b) \<Rightarrow> error + 'b" where
  "bind_err m f = (case m of Inl e \<Rightarrow> Inl e | Inr x \<Rightarrow> f x)"

text \<open>\<^verbatim>\<open>astype(float)\<close> on one cell: a float stays, a string is parsed.\<close>

definition cast_cell :: "ext \<Rightarrow> cell \<Rightarrow> cell option" where
  "cast_cell X c =
     (case c of CNum q \<Rightarrow> Some (CNum q) | CStr s \<Rightarrow> map_option CNum (parse_float X s))"

definition cast_row :: "ext \<Rightarrow> string \<Rightarrow> string list \<Rightarrow> cell list \<Rightarrow> cell list option" where
  "cast_row X col names cells =
     those (map (\<lambda>(n, c). if n = col then cast_cell X c else Some c) (zip names cells))"

text \<open>
  \<^verbatim>\<open>report_df[col] = report_df[col].astype(float)\<close>: \<^verbatim>\<open>KeyError\<close> when no column has
  the name, \<^verbatim>\<open>ValueError\<close> when a cell does not parse; every column of that name is cast.
\<close>

definition astype_float :: "ext \<Rightarrow> string \<Rightarrow> DataFrame \<Rightarrow> error + DataFrame" where
  "astype_float X col df =
     (if col \<notin> set (columns df) then Inl KeyError
      else
        (case those (map (cast_row X col (columns df)) (rows df)) of
           None \<Rightarrow> Inl ValueError
         | Some rs \<Rightarrow> Inr (df\<lparr>rows := rs\<rparr>)))"

text \<open>
  The number in a cell, and the key of a row: the numbers in its sort columns. The sort
  columns exist and have been cast before the sort reads them, so the cases that give
  \<open>0\<close> are never reached from \<open>rank_report_context\<close>.
\<close>

definition cell_num :: "cell \<Rightarrow> rat" where
  "cell_num c = (case c of CNum q \<Rightarrow> q | CStr s \<Rightarrow> 0)"

definition row_sort_key :: "string list \<Rightarrow> string list \<Rightarrow> cell list \<Rightarrow> rat list" where
  "row_sort_key cols names row =
     map (\<lambda>n. case map_of (zip cols row) n of Some c \<Rightarrow> cell_num c | None \<Rightarrow> 0) names"

text \<open>
  \<^verbatim>\<open>report_df.sort_values(by=rank_attributes, ascending=False, inplace=True)\<close>: pandas
  raises \<^verbatim>\<open>ValueError\<close> when a label of \<^verbatim>\<open>by\<close> names more than one column; otherwise
  the rows are taken in the order the library's sort returns (positions of the rows it
  was given).
\<close>

definition sort_values :: "ext \<Rightarrow> string list \<Rightarrow> DataFrame \<Rightarrow> error + DataFrame" where
  "sort_values X by df =
     (if list_ex (\<lambda>n. count_list (columns df) n \<noteq> 1) by then Inl ValueError
      else
        Inr (df\<lparr>rows :=
               map (\<lambda>i. rows df ! i)
                 (argsort_desc X (map (row_sort_key (columns df) by) (rows df)))\<rparr>))"

text \<open>\<^verbatim>\<open>if weight_column:\<close> is truthiness: \<^verbatim>\<open>None\<close> and the empty string are false.\<close>

definition given_column :: "string option \<Rightarrow> string list" where
  "given_column c = (case c of None \<Rightarrow> [] | Some n \<Rightarrow> if n = [] then [] else [n])"

definition astype_each :: "ext \<Rightarrow> string list \<Rightarrow> DataFrame \<Rightarrow> error + DataFrame" where
  "astype_each X names df = fold (\<lambda>n acc. bind_err acc (astype_float X n)) names (Inr df)"

definition rank_report_context ::
  "ext \<Rightarrow> DataFrame \<Rightarrow> string option \<Rightarrow> string option \<Rightarrow> error + DataFrame" where
  "rank_report_context X report_df weight_column rank_column =
     (let rank_attributes = given_column weight_column @ given_column rank_column in
      bind_err (astype_each X rank_attributes report_df)
        (\<lambda>df. if length rank_attributes > 0 then sort_values X rank_attributes df else Inr df))"

text \<open>
  \<^verbatim>\<open>pd.DataFrame(context_records, columns=header)\<close>: every cell is a string. The builder
  only passes rows that are as long as the header.
\<close>

definition convert_report_context_to_df ::
  "ext \<Rightarrow> string list list \<Rightarrow> string list \<Rightarrow> string option \<Rightarrow> string option
     \<Rightarrow> error + DataFrame" where
  "convert_report_context_to_df X context_records header weight_column rank_column =
     rank_report_context X
       \<lparr>columns = header, rows = map (map CStr) context_records\<rparr> weight_column rank_column"

section \<open>The builder: \<^verbatim>\<open>build_community_context\<close>\<close>

record config =
  use_community_summary :: bool
  column_delimiter :: string
  shuffle_data :: bool
  include_community_rank :: bool
  min_community_rank :: int
  community_rank_name :: string
  include_community_weight :: bool
  community_weight_name :: string
  normalize_community_weight :: bool
  max_tokens :: int
  single_batch :: bool
  context_name :: string
  random_state :: int

text \<open>
  The text member of the result is \<^verbatim>\<open>str | list[str]\<close>; the second member is a dict
  with no key or with the one key \<^verbatim>\<open>context_name.lower()\<close>.
\<close>

datatype context_text = Single string | Batches "string list"

type_synonym tables = "(string \<times> DataFrame) list"

text \<open>Truthiness of the \<^verbatim>\<open>entities\<close> argument: \<^verbatim>\<open>None\<close> and the empty list are false.\<close>

definition entities_truthy :: "Entity list option \<Rightarrow> bool" where
  "entities_truthy entities = (case entities of None \<Rightarrow> False | Some es \<Rightarrow> es \<noteq> [])"

text \<open>Lines 49--57: the guard in front of the weight computer.\<close>

definition needs_weights :: "config \<Rightarrow> CommunityReport list \<Rightarrow> Entity list option \<Rightarrow> bool" where
  "needs_weights cfg community_reports entities =
     (entities_truthy entities \<and>
      (case community_reports of
         [] \<Rightarrow> False
       | first # rest \<Rightarrow>
           include_community_weight cfg \<and>
           (case attributes first of
              None \<Rightarrow> True
            | Some d \<Rightarrow> map_of d (community_weight_name cfg) = None)))"

definition newline :: string where
  "newline = [CHR 0x0A]"

fun join :: "string \<Rightarrow> string list \<Rightarrow> string" where
  "join sep [] = []"
| "join sep [x] = x"
| "join sep (x # y # ys) = x @ sep @ join sep (y # ys)"

text \<open>Lines 84--96: the header, from the attribute keys of the first selected report.\<close>

definition attribute_cols :: "config \<Rightarrow> CommunityReport \<Rightarrow> string list" where
  "attribute_cols cfg first =
     (let cols0 = (case attributes first of None \<Rightarrow> [] | Some d \<Rightarrow> map fst d);
          cols1 = filter (\<lambda>col. col \<notin> set [''id'', ''title'']) cols0
      in if \<not> include_community_weight cfg
         then filter (\<lambda>col. col \<noteq> community_weight_name cfg) cols1
         else cols1)"

definition make_header :: "config \<Rightarrow> string list \<Rightarrow> string list" where
  "make_header cfg cols =
     [''id'', ''title''] @ cols
       @ [if use_community_summary cfg then ''summary'' else ''content'']
       @ (if include_community_rank cfg then [community_rank_name cfg] else [])"

text \<open>Lines 81, 99 and 158--163: the banner line followed by the header line.\<close>

definition header_text :: "config \<Rightarrow> string list \<Rightarrow> string" where
  "header_text cfg header =
     ''-----'' @ context_name cfg @ ''-----'' @ newline
       @ join (column_delimiter cfg) header @ newline"

text \<open>Lines 108--121: the row of one report.\<close>

definition attribute_field :: "ext \<Rightarrow> CommunityReport \<Rightarrow> string \<Rightarrow> string" where
  "attribute_field X report field =
     (case attributes report of
        None \<Rightarrow> []
      | Some d \<Rightarrow>
          if d = [] then []
          else (case map_of d field of None \<Rightarrow> [] | Some v \<Rightarrow> py_str X v))"

definition rank_field :: "ext \<Rightarrow> CommunityReport \<Rightarrow> string" where
  "rank_field X report =
     (case rank report of None \<Rightarrow> ''None'' | Some q \<Rightarrow> py_str X (PFloat q))"

definition report_row :: "ext \<Rightarrow> config \<Rightarrow> string list \<Rightarrow> CommunityReport \<Rightarrow> string list" where
  "report_row X cfg cols report =
     [short_id report, title report] @ map (attribute_field X report) cols
       @ [if use_community_summary cfg then summary report else full_content report]
       @ (if include_community_rank cfg then [rank_field X report] else [])"

definition row_text :: "config \<Rightarrow> string list \<Rightarrow> string" where
  "row_text cfg row = join (column_delimiter cfg) row @ newline"

text \<open>The local variables of the loop of lines 106--170.\<close>

record loop_state =
  current_context_text :: string
  current_tokens :: nat
  current_context_records :: "string list list"
  all_context_text :: "string list"
  all_context_records :: "DataFrame list"

datatype outcome = Raised error | Returned "context_text \<times> tables" | Next loop_state

text \<open>
  Lines 134--145 and 176--186: the current batch as a sorted table, or the empty
  \<^verbatim>\<open>DataFrame()\<close> when only the header is there.
\<close>

definition close_batch ::
  "ext \<Rightarrow> config \<Rightarrow> Entity list option \<Rightarrow> string list list \<Rightarrow> error + DataFrame" where
  "close_batch X cfg entities records =
     (case records of
        header # r # rs \<Rightarrow>
          convert_report_context_to_df X (r # rs) header
            (if entities_truthy entities \<and> include_community_weight cfg
             then Some (community_weight_name cfg) else None)
            (if include_community_rank cfg then Some (community_rank_name cfg) else None)
      | _ \<Rightarrow> Inr empty_df)"

definition overflows :: "ext \<Rightarrow> config \<Rightarrow> loop_state \<Rightarrow> string list \<Rightarrow> bool" where
  "overflows X cfg st row =
     (int (current_tokens st) + int (num_tokens X (row_text cfg row)) > max_tokens cfg)"

text \<open>One iteration of the loop (lines 107--170).\<close>

definition process_report ::
  "ext \<Rightarrow> config \<Rightarrow> Entity list option \<Rightarrow> string list \<Rightarrow> string list
     \<Rightarrow> loop_state \<Rightarrow> CommunityReport \<Rightarrow> outcome" where
  "process_report X cfg entities header cols st report =
     (let new_context = report_row X cfg cols report;
          new_context_text = row_text cfg new_context;
          new_tokens = num_tokens X new_context_text
      in if overflows X cfg st new_context then
           (case close_batch X cfg entities (current_context_records st) of
              Inl e \<Rightarrow> Raised e
            | Inr record_df \<Rightarrow>
                (let text = to_csv X (column_delimiter cfg) record_df in
                 if single_batch cfg then
                   Returned (Single text, [(lower X (context_name cfg), record_df)])
                 else
                   Next (st\<lparr>all_context_text := all_context_text st @ [text],
                            all_context_records := all_context_records st @ [record_df],
                            current_context_text := header_text cfg header,
                            current_tokens := num_tokens X (header_text cfg header),
                            current_context_records := [header]\<rparr>)))
         else
           Next (st\<lparr>current_context_text := current_context_text st @ new_context_text,
                    current_tokens := current_tokens st + new_tokens,
                    current_context_records := current_context_records st @ [new_context]\<rparr>))"

fun run_loop ::
  "ext \<Rightarrow> config \<Rightarrow> Entity list option \<Rightarrow> string list \<Rightarrow> string list
     \<Rightarrow> CommunityReport list \<Rightarrow> loop_state \<Rightarrow> outcome" where
  "run_loop X cfg entities header cols [] st = Next st"
| "run_loop X cfg entities header cols (report # reports) st =
     (case process_report X cfg entities header cols st report of
        Next st' \<Rightarrow> run_loop X cfg entities header cols reports st'
      | Raised e \<Rightarrow> Raised e
      | Returned res \<Rightarrow> Returned res)"

text \<open>
  \<^verbatim>\<open>pd.concat(all_context_records, ignore_index=True)\<close>. Every table the builder
  collects is either the empty \<^verbatim>\<open>DataFrame()\<close> or has the header as its columns, so the
  result has the columns of the first table that has any and the rows of all tables
  in order (the header's names taken to be distinct); no table at all raises
  \<^verbatim>\<open>ValueError\<close>.
\<close>

definition pd_concat :: "DataFrame list \<Rightarrow> error + DataFrame" where
  "pd_concat dfs =
     (if dfs = [] then Inl ValueError
      else Inr \<lparr>columns = (case filter (\<lambda>d. columns d \<noteq> []) dfs of
                             [] \<Rightarrow> []
                           | d # ds \<Rightarrow> columns d),
                rows = concat (map rows dfs)\<rparr>)"

text \<open>Lines 175--193: the batch still open after the loop, and the result.\<close>

definition finish ::
  "ext \<Rightarrow> config \<Rightarrow> Entity list option \<Rightarrow> loop_state \<Rightarrow> error + (context_text \<times> tables)" where
  "finish X cfg entities st =
     bind_err
       (if current_context_text st \<notin> set (all_context_text st) then
          bind_err (close_batch X cfg entities (current_context_records st))
            (\<lambda>record_df.
               Inr (all_context_text st @ [to_csv X (column_delimiter cfg) record_df],
                    all_context_records st @ [record_df]))
        else Inr (all_context_text st, all_context_records st))
       (\<lambda>(texts, records).
          bind_err (pd_concat records)
            (\<lambda>table. Inr (Batches texts, [(lower X (context_name cfg), table)])))"

text \<open>The state in which the loop starts (lines 99--103).\<close>

definition initial_state :: "ext \<Rightarrow> config \<Rightarrow> string list \<Rightarrow> loop_state" where
  "initial_state X cfg header =
     \<lparr>current_context_text = header_text cfg header,
      current_tokens = num_tokens X (header_text cfg header),
      current_context_records = [header],
      all_context_text = [],
      all_context_records = []\<rparr>"

text \<open>
  Lines 79--193, from the selected (and shuffled) reports on. \<^verbatim>\<open>selected_reports[0]\<close>
  raises \<^verbatim>\<open>IndexError\<close> on an empty list; the builder never passes one.
\<close>

definition build_batches ::
  "ext \<Rightarrow> config \<Rightarrow> Entity list option \<Rightarrow> CommunityReport list
     \<Rightarrow> error + (context_text \<times> tables)" where
  "build_batches X cfg entities selected_reports =
     (case selected_reports of
        [] \<Rightarrow> Inl IndexError
      | first # rest \<Rightarrow>
          (let cols = attribute_cols cfg first;
               header = make_header cfg cols
           in case run_loop X cfg entities header cols selected_reports
                     (initial_state X cfg header) of
                Raised e \<Rightarrow> Inl e
              | Returned res \<Rightarrow> Inr res
              | Next st \<Rightarrow> finish X cfg entities st))"

text \<open>
  The whole builder. The first component is the list of reports as the caller sees it
  after the call (the weight computer writes into the reports it is given); the second
  is the exception raised or the value returned.
\<close>

definition build_community_context ::
  "ext \<Rightarrow> config \<Rightarrow> CommunityReport list \<Rightarrow> Entity list option
     \<Rightarrow> CommunityReport list \<times> (error + (context_text \<times> tables))" where
  "build_community_context X cfg community_reports entities =
     (let (reports1, err) =
            (if needs_weights cfg community_reports entities then
               compute_community_weights community_reports
                 (case entities of None \<Rightarrow> [] | Some es \<Rightarrow> es)
                 (community_weight_name cfg) (normalize_community_weight cfg)
             else (community_reports, None))
      in case err of
           Some e \<Rightarrow> (reports1, Inl e)
         | None \<Rightarrow>
             (let selected_reports = select_reports (min_community_rank cfg) reports1 in
              if selected_reports = [] then (reports1, Inr (Batches [], []))
              else
                (reports1,
                 build_batches X cfg entities
                   (if shuffle_data cfg then shuffle X (random_state cfg) selected_reports
                    else selected_reports))))"

section \<open>Notions used to state the properties\<close>

text \<open>An entity lists a community id among its \<^verbatim>\<open>community_ids\<close>.\<close>

definition lists_community :: "Entity \<Rightarrow> string \<Rightarrow> bool" where
  "lists_community e cid =
     (case community_ids e of None \<Rightarrow> False | Some cids \<Rightarrow> cid \<in> set cids)"

text \<open>
  The distinct text unit ids contributed to a community by the entities that list it.
\<close>

definition community_units :: "Entity list \<Rightarrow> string \<Rightarrow> string set" where
  "community_units entities cid =
     \<Union> (set ` text_unit_ids ` {e \<in> set entities. lists_community e cid})"

text \<open>Their number, for the community of a report.\<close>

definition unit_count :: "Entity list \<Rightarrow> CommunityReport \<Rightarrow> nat" where
  "unit_count entities r = card (community_units entities (community_id r))"

text \<open>
  The token count of a batch as the accumulator counts it: the banner and header
  lines, plus the text of every row.
\<close>

definition batch_tokens :: "ext \<Rightarrow> config \<Rightarrow> string list \<Rightarrow> string list list \<Rightarrow> nat" where
  "batch_tokens X cfg header batch_rows =
     num_tokens X (header_text cfg header)
       + sum_list (map (\<lambda>row. num_tokens X (row_text cfg row)) batch_rows)"

text \<open>
  The bookkeeping of the accumulator: the open batch begins with the header, the running
  count is the token count of the batch, and a batch that holds a row is within the
  budget.
\<close>

definition budget_inv :: "ext \<Rightarrow> config \<Rightarrow> string list \<Rightarrow> loop_state \<Rightarrow> bool" where
  "budget_inv X cfg header st =
     (\<exists>batch_rows. current_context_records st = header # batch_rows
        \<and> current_tokens st = batch_tokens X cfg header batch_rows
        \<and> (batch_rows = [] \<or> int (batch_tokens X cfg header batch_rows) \<le> max_tokens cfg))"

text \<open>
  The budget as the specification words it: a batch without rows and a batch of one
  row that alone exceeds the budget are set aside, every other batch is within
  \<^verbatim>\<open>max_tokens\<close>.
\<close>

definition within_budget :: "ext \<Rightarrow> config \<Rightarrow> string list \<Rightarrow> string list list \<Rightarrow> bool" where
  "within_budget X cfg header batch_rows =
     (batch_rows = []
      \<or> (\<exists>row. batch_rows = [row] \<and> max_tokens cfg < int (num_tokens X (row_text cfg row)))
      \<or> int (batch_tokens X cfg header batch_rows) \<le> max_tokens cfg)"

text \<open>
  A closed batch is recorded as the rows it held and the table it was closed into.
  What the builder returns for a list of closed batches: their rendered tables as the
  text (a single string on the early return of line 152), and one table with the rows
  of all of them.
\<close>

definition emits ::
  "ext \<Rightarrow> config \<Rightarrow> (string list list \<times> DataFrame) list \<Rightarrow> context_text \<times> tables \<Rightarrow> bool" where
  "emits X cfg emitted res =
     (emitted \<noteq> []
      \<and> (fst res = Batches (map (\<lambda>p. to_csv X (column_delimiter cfg) (snd p)) emitted)
         \<or> (\<exists>p. emitted = [p] \<and> fst res = Single (to_csv X (column_delimiter cfg) (snd p))))
      \<and> (\<exists>table. snd res = [(lower X (context_name cfg), table)]
             \<and> rows table = concat (map (\<lambda>p. rows (snd p)) emitted)))"

text \<open>
  The reports the builder batches (lines 67--77, after the weight computer, the filter
  and the shuffle), and the header it builds from the first of them.
\<close>

definition selected_reports_of ::
  "ext \<Rightarrow> config \<Rightarrow> CommunityReport list \<Rightarrow> Entity list option \<Rightarrow> CommunityReport list" where
  "selected_reports_of X cfg reports entities =
     (let selected_reports =
            select_reports (min_community_rank cfg)
              (fst (build_community_context X cfg reports entities))
      in if shuffle_data cfg then shuffle X (random_state cfg) selected_reports
         else selected_reports)"

definition table_header ::
  "ext \<Rightarrow> config \<Rightarrow> CommunityReport list \<Rightarrow> Entity list option \<Rightarrow> string list" where
  "table_header X cfg reports entities =
     make_header cfg (attribute_cols cfg (hd (selected_reports_of X cfg reports entities)))"

text \<open>
  The loop's invariant over the batches closed so far: each table in
  \<^verbatim>\<open>all_context_records\<close> was closed from a batch that began with the header and either
  held no row or was within the budget, and \<^verbatim>\<open>all_context_text\<close> holds their renderings.
\<close>

definition closed_ok ::
  "ext \<Rightarrow> config \<Rightarrow> Entity list option \<Rightarrow> string list
     \<Rightarrow> string list list \<times> DataFrame \<Rightarrow> bool" where
  "closed_ok X cfg entities header p =
     (close_batch X cfg entities (header # fst p) = Inr (snd p)
      \<and> (fst p = [] \<or> int (batch_tokens X cfg header (fst p)) \<le> max_tokens cfg))"

definition loop_inv ::
  "ext \<Rightarrow> config \<Rightarrow> Entity list option \<Rightarrow> string list
     \<Rightarrow> (string list list \<times> DataFrame) list \<Rightarrow> loop_state \<Rightarrow> bool" where
  "loop_inv X cfg entities header emitted st =
     (budget_inv X cfg header st
      \<and> all_context_records st = map snd emitted
      \<and> all_context_text st = map (\<lambda>p. to_csv X (column_delimiter cfg) (snd p)) emitted
      \<and> list_all (closed_ok X cfg entities header) emitted)"


text \<open>
  A sort that keeps that promise: reverse the positions, sort them ascending by key
  with a stable sort, and reverse the result.
\<close>

definition stable_argsort_desc :: "rat list list \<Rightarrow> nat list" where
  "stable_argsort_desc keys =
     rev (sort_key (\<lambda>i. keys ! i) (rev [0..<length keys]))"



section \<open>Concrete collaborators and inputs for evaluation\<close>

text \<open>
  A character-level token counter, a renderer that writes the column line and one line
  per row (a lone line break for the empty table), and conversions that are right on
  the values of the examples: integers in decimal, floats without a fraction with a
  trailing \<^verbatim>\<open>.0\<close>, one half as \<^verbatim>\<open>0.5\<close>, and a parser for the three numerals used.
\<close>

definition digit_char :: "nat \<Rightarrow> char" where
  "digit_char d = ''0123456789'' ! d"

function show_nat :: "nat \<Rightarrow> string" where
  "show_nat n = (if n < 10 then [digit_char n] else show_nat (n div 10) @ [digit_char (n mod 10)])"
  by pat_completeness auto
termination
  by (relation "measure id") auto

declare show_nat.simps [simp del]

definition show_int :: "int \<Rightarrow> string" where
  "show_int i = (if i < 0 then ''-'' @ show_nat (nat (- i)) else show_nat (nat i))"

definition sample_str :: "pyval \<Rightarrow> string" where
  "sample_str v =
     (case v of
        PStr s \<Rightarrow> s
      | PInt n \<Rightarrow> show_int n
      | PFloat q \<Rightarrow> (if q = 1 / 2 then ''0.5'' else show_int \<lfloor>q\<rfloor> @ ''.0''))"


definition sample_parse :: "string \<Rightarrow> rat option" where
  "sample_parse s =
     (if s = ''1.0'' then Some 1 else if s = ''2.0'' then Some 2
      else if s = ''0.5'' then Some (1 / 2) else None)"

definition sample_cell :: "cell \<Rightarrow> string" where
  "sample_cell c = (case c of CStr s \<Rightarrow> s | CNum q \<Rightarrow> sample_str (PFloat q))"

definition sample_to_csv :: "string \<Rightarrow> DataFrame \<Rightarrow> string" where
  "sample_to_csv sep df =
     (if columns df = [] then newline
      else concat (map (\<lambda>line. join sep line @ newline)
                     (columns df # map (map sample_cell) (rows df))))"

definition sample_ext :: ext where
  "sample_ext =
     \<lparr>num_tokens = length,
      py_str = sample_str,
      parse_float = sample_parse,
      argsort_desc = stable_argsort_desc,
      to_csv = sample_to_csv,
      shuffle = (\<lambda>seed reports. rev reports),
      lower = (\<lambda>s. if s = ''Reports'' then ''reports'' else s)\<rparr>"

text \<open>The defaults of the builder's signature, with \<^verbatim>\<open>shuffle_data\<close> switched off.\<close>

definition default_config :: config where
  "default_config =
     \<lparr>use_community_summary = True,
      column_delimiter = ''|'',
      shuffle_data = False,
      include_community_rank = False,
      min_community_rank = 0,
      community_rank_name = ''rank'',
      include_community_weight = True,
      community_weight_name = ''occurrence weight'',
      normalize_community_weight = True,
      max_tokens = 8000,
      single_batch = True,
      context_name = ''Reports'',
      random_state = 86\<rparr>"

definition sample_report :: "string \<Rightarrow> string \<Rightarrow> rat option \<Rightarrow> CommunityReport" where
  "sample_report ident cid rk =
     \<lparr>short_id = ident, title = ''T'', community_id = cid, summary = ''S'',
      full_content = ''F'', rank = rk, attributes = None\<rparr>"

definition sample_entity :: "string list \<Rightarrow> string list \<Rightarrow> Entity" where
  "sample_entity cids units = \<lparr>community_ids = Some cids, text_unit_ids = units\<rparr>"

text \<open>
  Two configurations with several batches allowed. With the character-level counter the
  banner and header lines of the sample reports take \<open>35\<close> tokens and a row takes \<open>6\<close>:
  a budget of \<open>45\<close> holds one row, a budget of \<open>30\<close> not even the header.
\<close>

definition batch_config :: config where
  "batch_config = default_config\<lparr>single_batch := False, max_tokens := 45\<rparr>"

definition tight_config :: config where
  "tight_config = default_config\<lparr>single_batch := False, max_tokens := 30\<rparr>"

text \<open>The default configuration with a budget that holds one row of the sample reports.\<close>

definition single_tight_config :: config where
  "single_tight_config = default_config\<lparr>max_tokens := 45\<rparr>"


lemmas eval_defs =
  build_community_context_def needs_weights_def entities_truthy_def
  default_config_def select_reports_def keep_report_def sample_report_def
  build_batches_def attribute_cols_def make_header_def initial_state_def header_text_def
  process_report_def overflows_def report_row_def row_text_def newline_def
  close_batch_def convert_report_context_to_df_def rank_report_context_def given_column_def
  astype_each_def bind_err_def finish_def pd_concat_def empty_df_def
  sample_ext_def sample_to_csv_def sample_cell_def batch_tokens_def
  batch_config_def tight_config_def

text \<open>
  Two reports of different communities with two entities: community \<open>c1\<close> is listed by
  both entities (two distinct text units), community \<open>c2\<close> by one. And a report that
  already carries a weight.
\<close>

definition two_reports :: "CommunityReport list" where
  "two_reports = [sample_report ''1'' ''c1'' (Some 1), sample_report ''2'' ''c2'' (Some 1)]"

definition two_entities :: "Entity list" where
  "two_entities = [sample_entity [''c1'', ''c2''] [''t1''], sample_entity [''c1''] [''t2'']]"

lemmas weight_eval_defs =
  compute_community_weights_def assign_raw_weights_def set_weight_def
  raw_weight_def community_text_units_def add_entity_def add_community_def
  sample_report_def sample_entity_def weight_value_def get_weight_def attrs_truthy_def
  two_reports_def two_entities_def



section \<open>Properties of the weight computer\<close>

lemma units_add_community:
  "set (case add_community u c m cid of None \<Rightarrow> [] | Some l \<Rightarrow> l) =
     set (case m cid of None \<Rightarrow> [] | Some l \<Rightarrow> l) \<union> (if cid = c then set u else {})"
  by (auto simp: add_community_def split: option.splits)

lemma units_fold_add_community:
  "set (case fold (add_community u) cids m cid of None \<Rightarrow> [] | Some l \<Rightarrow> l) =
     set (case m cid of None \<Rightarrow> [] | Some l \<Rightarrow> l) \<union> (if cid \<in> set cids then set u else {})"
proof (induction cids arbitrary: m)
  case Nil
  then show ?case by simp
next
  case (Cons c cids)
  show ?case
    unfolding fold_simps Cons.IH units_add_community by auto
qed

lemma units_add_entity:
  "set (case add_entity e m cid of None \<Rightarrow> [] | Some l \<Rightarrow> l) =
     set (case m cid of None \<Rightarrow> [] | Some l \<Rightarrow> l)
       \<union> (if lists_community e cid then set (text_unit_ids e) else {})"
  by (cases "community_ids e")
     (simp_all add: add_entity_def lists_community_def units_fold_add_community)

lemma units_fold_add_entity:
  "set (case fold add_entity es m cid of None \<Rightarrow> [] | Some l \<Rightarrow> l) =
     set (case m cid of None \<Rightarrow> [] | Some l \<Rightarrow> l) \<union> community_units es cid"
proof (induction es arbitrary: m)
  case Nil
  then show ?case by (simp add: community_units_def)
next
  case (Cons e es)
  show ?case
    unfolding fold_simps Cons.IH units_add_entity by (auto simp: community_units_def)
qed

lemma raw_weight_card:
  "raw_weight (community_text_units es) r = int (card (community_units es (community_id r)))"
  unfolding raw_weight_def community_text_units_def length_remdups_card_conv
    units_fold_add_entity by simp

lemma map_of_dict_set: "map_of (dict_set k v d) k = Some v"
  by (induction d) auto

lemma get_weight_set_weight: "get_weight k (set_weight k v r) = Some v"
  by (simp add: get_weight_def set_weight_def map_of_dict_set)

lemma attrs_truthy_set_weight: "attrs_truthy (attributes (set_weight k v r))"
  by (cases "case attributes r of None \<Rightarrow> [] | Some d \<Rightarrow> d")
     (auto simp: attrs_truthy_def set_weight_def)

lemma weight_value_set_int: "weight_value k (set_weight k (PInt n) r) = of_int n"
  by (simp add: weight_value_def get_weight_set_weight)

lemma weight_value_set_float: "weight_value k (set_weight k (PFloat q) r) = q"
  by (simp add: weight_value_def get_weight_set_weight)

lemma raw_weights_truthy:
  "filter (\<lambda>r. attrs_truthy (attributes r)) (assign_raw_weights rs es k) = assign_raw_weights rs es k"
  by (simp add: assign_raw_weights_def filter_map o_def attrs_truthy_set_weight)

lemma raw_weights_truthy_mem:
  "r \<in> set (assign_raw_weights rs es k) \<Longrightarrow> attrs_truthy (attributes r)"
  by (auto simp: assign_raw_weights_def attrs_truthy_set_weight)

lemma raw_weights_empty: "assign_raw_weights rs es k = [] \<longleftrightarrow> rs = []"
  by (simp add: assign_raw_weights_def)

lemma raw_weights_nonneg:
  "r \<in> set (assign_raw_weights rs es k) \<Longrightarrow> 0 \<le> weight_value k r"
  by (auto simp: assign_raw_weights_def weight_value_set_int raw_weight_def)

lemma weight_value_raw:
  "map (weight_value key) (assign_raw_weights reports entities key) =
     map (\<lambda>r. rat_of_nat (unit_count entities r)) reports"
  by (simp add: assign_raw_weights_def weight_value_set_int raw_weight_card unit_count_def o_def)

lemma get_weight_raw:
  "map (get_weight key) (assign_raw_weights reports entities key) =
     map (\<lambda>r. Some (PInt (int (unit_count entities r)))) reports"
  by (simp add: assign_raw_weights_def get_weight_set_weight raw_weight_card unit_count_def o_def)

text \<open>
  Claim C8 (amended). With \<^verbatim>\<open>normalize=False\<close> the weight computer stores, under the
  weight key of every report, the number of distinct text unit ids contributed by the
  entities that list the report's community id (\<open>0\<close> when no entity lists it, the union
  being empty then), and returns without a fault. With \<^verbatim>\<open>normalize=True\<close>, whenever it
  returns, it stores that number divided by the largest such number over the reports.
\<close>

theorem weight_is_distinct_unit_count:
  "compute_community_weights reports entities key False =
     (map (\<lambda>r. set_weight key (PInt (int (unit_count entities r))) r) reports, None)
   \<and> map (get_weight key) (fst (compute_community_weights reports entities key False)) =
       map (\<lambda>r. Some (PInt (int (unit_count entities r)))) reports
   \<and> (snd (compute_community_weights reports entities key True) = None \<longrightarrow>
        map (get_weight key) (fst (compute_community_weights reports entities key True)) =
          map (\<lambda>r. Some (PFloat (rat_of_nat (unit_count entities r)
                     / Max (set (map (\<lambda>r. rat_of_nat (unit_count entities r)) reports)))))
            reports)"
proof (intro conjI impI)
  show "compute_community_weights reports entities key False =
     (map (\<lambda>r. set_weight key (PInt (int (unit_count entities r))) r) reports, None)"
    by (simp add: compute_community_weights_def assign_raw_weights_def raw_weight_card
        unit_count_def)
  show "map (get_weight key) (fst (compute_community_weights reports entities key False)) =
       map (\<lambda>r. Some (PInt (int (unit_count entities r)))) reports"
    by (simp add: compute_community_weights_def get_weight_raw)
next
  let ?rs = "assign_raw_weights reports entities key"
  let ?mx = "Max (set (map (weight_value key) ?rs))"
  assume "snd (compute_community_weights reports entities key True) = None"
  then have r': "fst (compute_community_weights reports entities key True) =
      map (\<lambda>r. if attrs_truthy (attributes r)
                 then set_weight key (PFloat (weight_value key r / ?mx)) r else r) ?rs"
    by (auto simp: compute_community_weights_def Let_def raw_weights_truthy split: if_splits)
  have "map (get_weight key) (fst (compute_community_weights reports entities key True)) =
      map (\<lambda>r. Some (PFloat (weight_value key r / ?mx))) ?rs"
    unfolding r' by (simp add: raw_weights_truthy_mem get_weight_set_weight)
  also have "\<dots> = map (\<lambda>w. Some (PFloat (w / ?mx))) (map (weight_value key) ?rs)"
    by (simp add: o_def)
  also have "\<dots> = map (\<lambda>r. Some (PFloat (rat_of_nat (unit_count entities r)
                     / Max (set (map (\<lambda>r. rat_of_nat (unit_count entities r)) reports)))))
            reports"
    unfolding weight_value_raw by (simp add: o_def)
  finally show "map (get_weight key) (fst (compute_community_weights reports entities key True)) =
          map (\<lambda>r. Some (PFloat (rat_of_nat (unit_count entities r)
                     / Max (set (map (\<lambda>r. rat_of_nat (unit_count entities r)) reports)))))
            reports" .
qed

theorem weight_is_distinct_unit_count_witness:
  "snd (compute_community_weights two_reports two_entities ''occurrence weight'' True) = None
   \<and> map (get_weight ''occurrence weight'')
        (fst (compute_community_weights two_reports two_entities ''occurrence weight'' True)) =
       map (\<lambda>r. Some (PFloat (rat_of_nat (unit_count two_entities r)
                     / Max (set (map (\<lambda>r. rat_of_nat (unit_count two_entities r)) two_reports)))))
         two_reports"
proof -
  have a: "snd (compute_community_weights two_reports two_entities ''occurrence weight'' True) = None"
    by (simp add: weight_eval_defs)
  from weight_is_distinct_unit_count[of two_reports two_entities "''occurrence weight''"] a
  show ?thesis by blast
qed

text \<open>
  The claim as stated covers every call, and with the default \<^verbatim>\<open>normalize=True\<close> the
  stored value is not the number of text units: for counts \<open>2\<close> and \<open>1\<close> the reports
  receive \<open>1\<close> and \<open>1/2\<close>.
\<close>

theorem normalized_weight_is_not_the_count:
  "map (unit_count two_entities) two_reports = [2, 1]
   \<and> compute_community_weights two_reports two_entities ''occurrence weight'' True =
       ([(sample_report ''1'' ''c1'' (Some 1))
            \<lparr>attributes := Some [(''occurrence weight'', PFloat 1)]\<rparr>,
         (sample_report ''2'' ''c2'' (Some 1))
            \<lparr>attributes := Some [(''occurrence weight'', PFloat (1 / 2))]\<rparr>],
        None)"
proof -
  have "map (get_weight ''occurrence weight'')
       (assign_raw_weights two_reports two_entities ''occurrence weight'') =
     [Some (PInt 2), Some (PInt 1)]"
    by (simp add: weight_eval_defs)
  then have "map (\<lambda>r. Some (PInt (int (unit_count two_entities r)))) two_reports
      = [Some (PInt 2), Some (PInt 1)]"
    by (simp only: get_weight_raw)
  then have "map (unit_count two_entities) two_reports = [2, 1]"
    by (simp add: two_reports_def)
  moreover have "compute_community_weights two_reports two_entities ''occurrence weight'' True =
       ([(sample_report ''1'' ''c1'' (Some 1))
            \<lparr>attributes := Some [(''occurrence weight'', PFloat 1)]\<rparr>,
         (sample_report ''2'' ''c2'' (Some 1))
            \<lparr>attributes := Some [(''occurrence weight'', PFloat (1 / 2))]\<rparr>],
        None)"
    by (simp add: weight_eval_defs)
  ultimately show ?thesis by simp
qed

lemma unreferenced_community_has_no_units:
  "list_all (\<lambda>e. \<not> lists_community e (community_id r)) entities \<Longrightarrow> unit_count entities r = 0"
  by (auto simp: unit_count_def community_units_def list_all_iff)

text \<open>
  Claim C2. With \<^verbatim>\<open>normalize=True\<close> and every raw weight \<open>0\<close> the claim promises weights
  left at \<open>0\<close> and no fault. The code divides by the maximum without looking at it: one
  report of community \<open>c1\<close> and one entity of community \<open>c2\<close> give the raw weight \<open>0\<close>,
  the maximum \<open>0\<close>, and \<^verbatim>\<open>0 / 0\<close> raises \<^verbatim>\<open>ZeroDivisionError\<close>.
\<close>

theorem zero_weights_divide_by_zero:
  "compute_community_weights [sample_report ''1'' ''c1'' (Some 1)]
       [sample_entity [''c2''] [''t1'']] ''occurrence weight'' True =
     ([(sample_report ''1'' ''c1'' (Some 1))
          \<lparr>attributes := Some [(''occurrence weight'', PInt 0)]\<rparr>],
      Some ZeroDivisionError)"
  by (simp add: compute_community_weights_def assign_raw_weights_def set_weight_def
      raw_weight_def community_text_units_def add_entity_def add_community_def
      sample_report_def sample_entity_def weight_value_def get_weight_def attrs_truthy_def)

text \<open>
  Where the maximum is not \<open>0\<close> the normalisation does what is expected of it:
  whenever the weight computer returns with \<^verbatim>\<open>normalize=True\<close>, the largest normalised
  weight is \<open>1\<close>.
\<close>


lemma normalized_max_is_one:
  assumes "compute_community_weights reports entities key True = (reports', None)"
  shows "Max (set (map (weight_value key) reports')) = 1"
proof -
  let ?rs = "assign_raw_weights reports entities key"
  let ?ws = "map (weight_value key) ?rs"
  let ?mx = "Max (set ?ws)"
  from assms have ne: "?ws \<noteq> []" and mx: "?mx \<noteq> 0"
    and r': "reports' = map (\<lambda>r. if attrs_truthy (attributes r)
                 then set_weight key (PFloat (weight_value key r / ?mx)) r else r) ?rs"
    by (auto simp: compute_community_weights_def Let_def raw_weights_truthy split: if_splits)
  have fin: "finite (set ?ws)" "set ?ws \<noteq> {}" using ne by auto
  have mem: "?mx \<in> set ?ws" using Max_in[OF fin] .
  have pos: "0 < ?mx"
  proof -
    from mem obtain r where "r \<in> set ?rs" "?mx = weight_value key r" by auto
    with raw_weights_nonneg[of r reports entities key] mx show ?thesis by simp
  qed
  have ws': "map (weight_value key) reports' = map (\<lambda>w. w / ?mx) ?ws"
    unfolding r' by (simp add: o_def weight_value_set_float raw_weights_truthy_mem)
  have "Max (set (map (\<lambda>w. w / ?mx) ?ws)) = 1"
  proof (rule Max_eqI)
    show "finite (set (map (\<lambda>w. w / ?mx) ?ws))" by simp
  next
    fix y assume "y \<in> set (map (\<lambda>w. w / ?mx) ?ws)"
    then obtain w where w: "w \<in> set ?ws" "y = w / ?mx" by auto
    from Max_ge[OF fin(1) w(1)] pos w(2) show "y \<le> 1" by (simp add: divide_le_eq)
  next
    from mem have "?mx / ?mx \<in> set (map (\<lambda>w. w / ?mx) ?ws)" by (simp only: set_map) blast
    with mx show "1 \<in> set (map (\<lambda>w. w / ?mx) ?ws)" by simp
  qed
  with ws' show ?thesis by simp
qed

section \<open>Properties of the report filter\<close>

lemma keep_report_iff:
  "keep_report m r \<longleftrightarrow> (\<exists>x. rank r = Some x \<and> x \<noteq> 0 \<and> x \<ge> of_int m)"
  by (simp add: keep_report_def split: option.splits)

text \<open>
  Claim C4. The claim keeps a report whose rank is present and at least
  \<^verbatim>\<open>min_community_rank\<close>, rank \<open>0\<close> with threshold \<open>0\<close> included. The code tests the rank
  for truthiness, not for presence, so a report of rank \<open>0\<close> is dropped at the default
  threshold \<open>0\<close>.
\<close>

theorem rank_zero_is_dropped:
  "rank (sample_report ''1'' ''c1'' (Some 0)) = Some 0
   \<and> (0::rat) \<ge> of_int 0
   \<and> select_reports 0 [sample_report ''1'' ''c1'' (Some 0)] = []"
  by (simp add: select_reports_def keep_report_def sample_report_def)

section \<open>Properties of the builder\<close>

text \<open>
  Claim C9. The claim promises the empty result, and no error, whenever no report
  survives the filter, for any input. The weight computer runs before the filter: with
  one report of absent rank and one entity of another community the builder raises
  \<^verbatim>\<open>ZeroDivisionError\<close> (the defect of claim C2) and never reaches the filter.
\<close>

theorem empty_selection_can_raise:
  "select_reports (min_community_rank default_config) [sample_report ''1'' ''c1'' None] = []
   \<and> snd (build_community_context X default_config [sample_report ''1'' ''c1'' None]
            (Some [sample_entity [''c2''] [''t1'']])) = Inl ZeroDivisionError"
  by (simp add: build_community_context_def needs_weights_def entities_truthy_def
      default_config_def compute_community_weights_def assign_raw_weights_def set_weight_def
      raw_weight_def community_text_units_def add_entity_def add_community_def
      sample_report_def sample_entity_def weight_value_def get_weight_def attrs_truthy_def
      select_reports_def keep_report_def)

lemma select_set_weight:
  "select_reports m (map (\<lambda>r. if P r then set_weight k (f r) r else r) rs) = []
     \<longleftrightarrow> select_reports m rs = []"
  by (induction rs) (auto simp: select_reports_def keep_report_def set_weight_def)

lemma select_assign:
  "select_reports m (assign_raw_weights rs es k) = [] \<longleftrightarrow> select_reports m rs = []"
  by (induction rs) (auto simp: assign_raw_weights_def select_reports_def keep_report_def set_weight_def)

lemma select_compute:
  "select_reports m (fst (compute_community_weights rs es k n)) = [] \<longleftrightarrow> select_reports m rs = []"
  by (simp add: compute_community_weights_def Let_def select_set_weight select_assign)

text \<open>
  Apart from that fault an empty selection gives the empty result.
\<close>

lemma empty_selection_result:
  assumes "select_reports (min_community_rank cfg) reports = []"
  shows "snd (build_community_context X cfg reports entities) = Inr (Batches [], [])
       \<or> snd (build_community_context X cfg reports entities) = Inl ZeroDivisionError"
proof (cases "needs_weights cfg reports entities")
  case False
  with assms show ?thesis by (simp add: build_community_context_def)
next
  case True
  let ?c = "compute_community_weights reports (case entities of None \<Rightarrow> [] | Some es \<Rightarrow> es)
              (community_weight_name cfg) (normalize_community_weight cfg)"
  from True have ne: "reports \<noteq> []" by (auto simp: needs_weights_def)
  have sel: "select_reports (min_community_rank cfg) (fst ?c) = []"
    using assms by (simp only: select_compute)
  have err: "snd ?c = None \<or> snd ?c = Some ZeroDivisionError"
    using ne by (simp add: compute_community_weights_def Let_def raw_weights_truthy
        raw_weights_empty)
  from True sel err show ?thesis
    by (cases ?c) (auto simp: build_community_context_def Let_def)
qed

lemma fst_build_unchanged:
  "\<not> needs_weights cfg reports entities \<Longrightarrow>
     fst (build_community_context X cfg reports entities) = reports"
  by (simp add: build_community_context_def Let_def)

lemma guard_false_when_present:
  assumes "\<forall>r \<in> set reports. get_weight (community_weight_name cfg) r \<noteq> None"
  shows "\<not> needs_weights cfg reports entities"
proof (cases reports)
  case Nil
  then show ?thesis by (simp add: needs_weights_def)
next
  case (Cons r rs)
  with assms have "get_weight (community_weight_name cfg) r \<noteq> None" by simp
  with Cons show ?thesis
    by (auto simp: needs_weights_def get_weight_def split: option.splits)
qed

text \<open>
  Claim C7. When the weight key is already present in the attributes of the reports, a
  call of the builder leaves the reports as they are: the guard of lines 49--57 skips
  the weight computer, and nothing else writes into a report.
\<close>

theorem weight_injection_guarded:
  assumes "\<forall>r \<in> set reports. get_weight (community_weight_name cfg) r \<noteq> None"
  shows "fst (build_community_context X cfg reports entities) = reports"
  using guard_false_when_present[OF assms] by (rule fst_build_unchanged)


theorem weight_injection_guarded_witness:
  "get_weight (community_weight_name default_config)
       ((sample_report ''1'' ''c1'' (Some 1))
          \<lparr>attributes := Some [(''occurrence weight'', PFloat 1)]\<rparr>) \<noteq> None
   \<and> fst (build_community_context sample_ext default_config
            [(sample_report ''1'' ''c1'' (Some 1))
               \<lparr>attributes := Some [(''occurrence weight'', PFloat 1)]\<rparr>]
            (Some [sample_entity [''c1''] [''t1'', ''t2'']])) =
       [(sample_report ''1'' ''c1'' (Some 1))
          \<lparr>attributes := Some [(''occurrence weight'', PFloat 1)]\<rparr>]"
  using weight_injection_guarded
    [of "[(sample_report ''1'' ''c1'' (Some 1))
            \<lparr>attributes := Some [(''occurrence weight'', PFloat 1)]\<rparr>]"
        default_config sample_ext "Some [sample_entity [''c1''] [''t1'', ''t2'']]"]
  by (simp add: get_weight_def default_config_def sample_report_def)

text \<open>
  A first call leaves the key in every report, on every path through the weight
  computer, so a second call with the same arguments changes nothing.
\<close>

lemma key_present_after_compute:
  "r \<in> set (fst (compute_community_weights reports es key n)) \<Longrightarrow> get_weight key r \<noteq> None"
  by (auto simp: compute_community_weights_def Let_def assign_raw_weights_def
      get_weight_set_weight split: if_splits)

lemma builder_idempotent_on_reports:
  "fst (build_community_context X cfg
          (fst (build_community_context X cfg reports entities)) entities) =
     fst (build_community_context X cfg reports entities)"
proof (cases "needs_weights cfg reports entities")
  case False
  then show ?thesis by (simp add: fst_build_unchanged)
next
  case True
  let ?c = "compute_community_weights reports (case entities of None \<Rightarrow> [] | Some es \<Rightarrow> es)
              (community_weight_name cfg) (normalize_community_weight cfg)"
  from True have f: "fst (build_community_context X cfg reports entities) = fst ?c"
    by (cases ?c) (auto simp: build_community_context_def Let_def split: option.splits)
  have "\<forall>r \<in> set (fst ?c). get_weight (community_weight_name cfg) r \<noteq> None"
    using key_present_after_compute by blast
  from guard_false_when_present[OF this] show ?thesis
    unfolding f by (rule fst_build_unchanged)
qed

section \<open>Properties of the batch accumulator\<close>

lemma budget_inv_initial: "budget_inv X cfg header (initial_state X cfg header)"
  by (simp add: budget_inv_def initial_state_def batch_tokens_def)

lemma budget_inv_step:
  assumes "budget_inv X cfg header st"
    and "process_report X cfg entities header cols st report = Next st'"
  shows "budget_inv X cfg header st'"
proof (cases "overflows X cfg st (report_row X cfg cols report)")
  case True
  with assms(2) have "current_context_records st' = [header]
      \<and> current_tokens st' = num_tokens X (header_text cfg header)"
    by (auto simp: process_report_def Let_def split: sum.splits if_splits)
  then show ?thesis by (simp add: budget_inv_def batch_tokens_def)
next
  case False
  from assms(1) obtain batch_rows where
    b: "current_context_records st = header # batch_rows"
       "current_tokens st = batch_tokens X cfg header batch_rows"
    by (auto simp: budget_inv_def)
  let ?row = "report_row X cfg cols report"
  from False assms(2) have s: "current_context_records st' = current_context_records st @ [?row]"
      "current_tokens st' = current_tokens st + num_tokens X (row_text cfg ?row)"
    by (auto simp: process_report_def Let_def)
  from False have "int (current_tokens st) + int (num_tokens X (row_text cfg ?row)) \<le> max_tokens cfg"
    by (simp add: overflows_def)
  with b s show ?thesis
    by (auto simp: budget_inv_def batch_tokens_def)
qed

lemma budget_inv_loop:
  "budget_inv X cfg header st \<Longrightarrow>
   run_loop X cfg entities header cols reports st = Next st' \<Longrightarrow>
   budget_inv X cfg header st'"
proof (induction reports arbitrary: st)
  case Nil
  then show ?case by simp
next
  case (Cons r rs)
  from Cons.prems(2) obtain st1 where
    s: "process_report X cfg entities header cols st r = Next st1"
       "run_loop X cfg entities header cols rs st1 = Next st'"
    by (auto split: outcome.splits)
  from budget_inv_step[OF Cons.prems(1) s(1)] Cons.IH s(2) show ?case by blast
qed

lemma loop_inv_initial: "loop_inv X cfg entities header [] (initial_state X cfg header)"
  by (simp add: loop_inv_def budget_inv_initial) (simp add: initial_state_def)

lemma loop_inv_step:
  assumes "loop_inv X cfg entities header emitted st"
    and "process_report X cfg entities header cols st report = Next st'"
  shows "\<exists>emitted'. loop_inv X cfg entities header emitted' st'"
proof -
  from assms(1) have b: "budget_inv X cfg header st" by (simp add: loop_inv_def)
  from budget_inv_step[OF b assms(2)] have b': "budget_inv X cfg header st'" .
  from b obtain batch_rows where
    r: "current_context_records st = header # batch_rows"
       "batch_rows = [] \<or> int (batch_tokens X cfg header batch_rows) \<le> max_tokens cfg"
    by (auto simp: budget_inv_def)
  show ?thesis
  proof (cases "overflows X cfg st (report_row X cfg cols report)")
    case True
    with assms(2) obtain df where
      c: "close_batch X cfg entities (current_context_records st) = Inr df"
      and s: "all_context_records st' = all_context_records st @ [df]"
        "all_context_text st' = all_context_text st @ [to_csv X (column_delimiter cfg) df]"
      by (auto simp: process_report_def Let_def split: sum.splits if_splits)
    from c r have "closed_ok X cfg entities header (batch_rows, df)"
      by (simp add: closed_ok_def)
    with assms(1) s b' have "loop_inv X cfg entities header (emitted @ [(batch_rows, df)]) st'"
      by (simp add: loop_inv_def)
    then show ?thesis ..
  next
    case False
    with assms(2) have "all_context_records st' = all_context_records st"
        "all_context_text st' = all_context_text st"
      by (auto simp: process_report_def Let_def)
    with assms(1) b' have "loop_inv X cfg entities header emitted st'"
      by (simp add: loop_inv_def)
    then show ?thesis ..
  qed
qed

lemma returned_step:
  assumes "loop_inv X cfg entities header emitted st"
    and "process_report X cfg entities header cols st report = Returned res"
  shows "\<exists>p. closed_ok X cfg entities header p \<and> emits X cfg [p] res"
proof -
  from assms(1) obtain batch_rows where
    r: "current_context_records st = header # batch_rows"
       "batch_rows = [] \<or> int (batch_tokens X cfg header batch_rows) \<le> max_tokens cfg"
    by (auto simp: loop_inv_def budget_inv_def)
  from assms(2) obtain df where
    c: "close_batch X cfg entities (current_context_records st) = Inr df"
    and s: "res = (Single (to_csv X (column_delimiter cfg) df), [(lower X (context_name cfg), df)])"
    by (auto simp: process_report_def Let_def split: sum.splits if_splits)
  from c r have "closed_ok X cfg entities header (batch_rows, df)"
    by (simp add: closed_ok_def)
  moreover from s have "emits X cfg [(batch_rows, df)] res" by (simp add: emits_def)
  ultimately show ?thesis by blast
qed

lemma loop_inv_loop:
  "loop_inv X cfg entities header emitted st \<Longrightarrow>
   (case run_loop X cfg entities header cols reports st of
      Next st' \<Rightarrow> \<exists>emitted'. loop_inv X cfg entities header emitted' st'
    | Returned res \<Rightarrow> \<exists>p. closed_ok X cfg entities header p \<and> emits X cfg [p] res
    | Raised e \<Rightarrow> True)"
proof (induction reports arbitrary: st emitted)
  case Nil
  then show ?case by auto
next
  case (Cons r rs)
  show ?case
  proof (cases "process_report X cfg entities header cols st r")
    case (Next st1)
    from loop_inv_step[OF Cons.prems Next] obtain emitted1 where
      "loop_inv X cfg entities header emitted1 st1" ..
    from Cons.IH[OF this] Next show ?thesis by simp
  next
    case (Raised e)
    then show ?thesis by simp
  next
    case (Returned res)
    with returned_step[OF Cons.prems Returned] show ?thesis by simp
  qed
qed

lemma finish_emits:
  assumes "loop_inv X cfg entities header emitted st"
    and "finish X cfg entities st = Inr res"
  shows "\<exists>emitted'. list_all (closed_ok X cfg entities header) emitted' \<and> emits X cfg emitted' res"
proof -
  from assms(1) obtain batch_rows where
    r: "current_context_records st = header # batch_rows"
       "batch_rows = [] \<or> int (batch_tokens X cfg header batch_rows) \<le> max_tokens cfg"
    by (auto simp: loop_inv_def budget_inv_def)
  from assms(1) have i: "all_context_records st = map snd emitted"
    "all_context_text st = map (\<lambda>p. to_csv X (column_delimiter cfg) (snd p)) emitted"
    "list_all (closed_ok X cfg entities header) emitted"
    by (simp_all add: loop_inv_def)
  show ?thesis
  proof (cases "current_context_text st \<notin> set (all_context_text st)")
    case True
    with assms(2) obtain df where
      c: "close_batch X cfg entities (current_context_records st) = Inr df"
      and s: "res = (Batches (all_context_text st @ [to_csv X (column_delimiter cfg) df]),
                    [(lower X (context_name cfg),
                      \<lparr>columns = (case filter (\<lambda>d. columns d \<noteq> []) (all_context_records st @ [df]) of
                                    [] \<Rightarrow> [] | d # ds \<Rightarrow> columns d),
                       rows = concat (map rows (all_context_records st @ [df]))\<rparr>)])"
      by (auto simp: finish_def bind_err_def pd_concat_def split: sum.splits)
    from c r have k: "closed_ok X cfg entities header (batch_rows, df)"
      by (simp add: closed_ok_def)
    from s i have "emits X cfg (emitted @ [(batch_rows, df)]) res"
      by (simp add: emits_def o_def)
    with k i(3) show ?thesis by (intro exI[of _ "emitted @ [(batch_rows, df)]"]) simp
  next
    case False
    with assms(2) have ne: "all_context_records st \<noteq> []"
      and s: "res = (Batches (all_context_text st),
                    [(lower X (context_name cfg),
                      \<lparr>columns = (case filter (\<lambda>d. columns d \<noteq> []) (all_context_records st) of
                                    [] \<Rightarrow> [] | d # ds \<Rightarrow> columns d),
                       rows = concat (map rows (all_context_records st))\<rparr>)])"
      by (auto simp: finish_def bind_err_def pd_concat_def split: sum.splits if_splits)
    from s i ne have "emits X cfg emitted res"
      by (auto simp: emits_def o_def)
    with i(3) show ?thesis by blast
  qed
qed

lemma build_batches_emits:
  assumes "build_batches X cfg entities selected = Inr res"
  shows "\<exists>emitted.
           list_all (closed_ok X cfg entities (make_header cfg (attribute_cols cfg (hd selected))))
             emitted
         \<and> emits X cfg emitted res"
proof (cases selected)
  case Nil
  with assms show ?thesis by (simp add: build_batches_def)
next
  case (Cons first rest)
  let ?cols = "attribute_cols cfg first"
  let ?h = "make_header cfg ?cols"
  let ?run = "run_loop X cfg entities ?h ?cols selected (initial_state X cfg ?h)"
  note li = loop_inv_loop[OF loop_inv_initial, of X cfg entities ?h ?cols selected]
  show ?thesis
  proof (cases ?run)
    case (Raised e)
    with assms Cons show ?thesis by (simp add: build_batches_def Let_def)
  next
    case (Returned r)
    with assms Cons have "r = res" by (simp add: build_batches_def Let_def)
    with li Returned obtain p where "closed_ok X cfg entities ?h p" "emits X cfg [p] res"
      by auto
    then have "list_all (closed_ok X cfg entities ?h) [p] \<and> emits X cfg [p] res" by simp
    with Cons show ?thesis by (intro exI[of _ "[p]"]) simp
  next
    case (Next st)
    with li obtain emitted where l: "loop_inv X cfg entities ?h emitted st" by auto
    from Next assms Cons have "finish X cfg entities st = Inr res"
      by (simp add: build_batches_def Let_def)
    from finish_emits[OF l this] Cons show ?thesis by simp
  qed
qed

lemma fst_build:
  "fst (build_community_context X cfg reports entities) =
     (if needs_weights cfg reports entities
      then fst (compute_community_weights reports
                 (case entities of None \<Rightarrow> [] | Some es \<Rightarrow> es)
                 (community_weight_name cfg) (normalize_community_weight cfg))
      else reports)"
  by (cases "compute_community_weights reports
                 (case entities of None \<Rightarrow> [] | Some es \<Rightarrow> es)
                 (community_weight_name cfg) (normalize_community_weight cfg)")
     (auto simp: build_community_context_def Let_def split: option.splits)

lemma select_after_weights:
  "select_reports (min_community_rank cfg) (fst (build_community_context X cfg reports entities)) = []
     \<longleftrightarrow> select_reports (min_community_rank cfg) reports = []"
  by (simp add: fst_build select_compute)

lemma builder_runs_batches:
  assumes "select_reports (min_community_rank cfg) reports \<noteq> []"
    and "snd (build_community_context X cfg reports entities) = Inr res"
  shows "build_batches X cfg entities (selected_reports_of X cfg reports entities) = Inr res"
proof -
  let ?c = "compute_community_weights reports
                 (case entities of None \<Rightarrow> [] | Some es \<Rightarrow> es)
                 (community_weight_name cfg) (normalize_community_weight cfg)"
  from assms(1) have ne:
    "select_reports (min_community_rank cfg) (fst (build_community_context X cfg reports entities)) \<noteq> []"
    by (simp add: select_after_weights)
  show ?thesis
  proof (cases "needs_weights cfg reports entities")
    case False
    with assms(2) ne show ?thesis
      by (auto simp: selected_reports_of_def fst_build build_community_context_def Let_def
          split: if_splits)
  next
    case True
    with assms(2) ne show ?thesis
      by (cases ?c)
         (auto simp: selected_reports_of_def fst_build build_community_context_def Let_def
          split: if_splits option.splits)
  qed
qed

text \<open>
  Claim C6 (amended). Whatever the builder returns from the selected reports on is made
  of closed batches: every table behind the returned text was closed, by lines 134--145
  or 176--186, from a batch that began with the header, and such a batch either holds
  no row, or is a single row that alone exceeds \<^verbatim>\<open>max_tokens\<close>, or has a token count
  (banner and header lines plus row texts) of at most \<^verbatim>\<open>max_tokens\<close>. So every closed
  batch that holds at least one row is within the budget, the single oversized row
  set aside as in the claim.
\<close>

theorem closed_batches_within_budget:
  assumes "select_reports (min_community_rank cfg) reports \<noteq> []"
    and "snd (build_community_context X cfg reports entities) = Inr res"
  shows "\<exists>emitted.
           emits X cfg emitted res
         \<and> list_all
             (\<lambda>p. close_batch X cfg entities (table_header X cfg reports entities # fst p)
                    = Inr (snd p)
                  \<and> within_budget X cfg (table_header X cfg reports entities) (fst p))
             emitted"
proof -
  from build_batches_emits[OF builder_runs_batches[OF assms]] obtain emitted where
    c: "list_all (closed_ok X cfg entities (table_header X cfg reports entities)) emitted"
    and e: "emits X cfg emitted res" unfolding table_header_def by blast
  from c have "list_all
             (\<lambda>p. close_batch X cfg entities (table_header X cfg reports entities # fst p)
                    = Inr (snd p)
                  \<and> within_budget X cfg (table_header X cfg reports entities) (fst p))
             emitted"
    by (auto simp: list_all_iff closed_ok_def within_budget_def)
  with e show ?thesis by blast
qed

theorem closed_batches_within_budget_witness:
  "select_reports (min_community_rank batch_config) two_reports \<noteq> []
   \<and> snd (build_community_context sample_ext batch_config two_reports None) =
       Inr (Batches
              [sample_to_csv ''|''
                 \<lparr>columns = [''id'', ''title'', ''summary''],
                  rows = [[CStr ''1'', CStr ''T'', CStr ''S'']]\<rparr>,
               sample_to_csv ''|'' empty_df],
            [(''reports'',
              \<lparr>columns = [''id'', ''title'', ''summary''],
               rows = [[CStr ''1'', CStr ''T'', CStr ''S'']]\<rparr>)])
   \<and> (\<exists>emitted.
         emits sample_ext batch_config emitted
           (Batches
              [sample_to_csv ''|''
                 \<lparr>columns = [''id'', ''title'', ''summary''],
                  rows = [[CStr ''1'', CStr ''T'', CStr ''S'']]\<rparr>,
               sample_to_csv ''|'' empty_df],
            [(''reports'',
              \<lparr>columns = [''id'', ''title'', ''summary''],
               rows = [[CStr ''1'', CStr ''T'', CStr ''S'']]\<rparr>)])
       \<and> list_all
           (\<lambda>p. close_batch sample_ext batch_config None
                   (table_header sample_ext batch_config two_reports None # fst p) = Inr (snd p)
                \<and> within_budget sample_ext batch_config
                    (table_header sample_ext batch_config two_reports None) (fst p))
           emitted)"
proof -
  have a: "select_reports (min_community_rank batch_config) two_reports \<noteq> []"
    by (simp add: eval_defs two_reports_def)
  have b: "snd (build_community_context sample_ext batch_config two_reports None) =
       Inr (Batches
              [sample_to_csv ''|''
                 \<lparr>columns = [''id'', ''title'', ''summary''],
                  rows = [[CStr ''1'', CStr ''T'', CStr ''S'']]\<rparr>,
               sample_to_csv ''|'' empty_df],
            [(''reports'',
              \<lparr>columns = [''id'', ''title'', ''summary''],
               rows = [[CStr ''1'', CStr ''T'', CStr ''S'']]\<rparr>)])"
    by (simp add: eval_defs two_reports_def Let_def)
  from closed_batches_within_budget[OF a b] a b show ?thesis by blast
qed

text \<open>
  The claim as stated fails for a batch without rows, which is neither within the
  budget nor a single oversized report: with a budget of \<open>30\<close> tokens and a header of
  \<open>35\<close> the first report overflows, the batch that is closed holds the header only, and
  its token count exceeds the budget.
\<close>

theorem header_alone_exceeds_budget:
  "(case process_report sample_ext tight_config None [''id'', ''title'', ''summary''] []
           (initial_state sample_ext tight_config [''id'', ''title'', ''summary''])
           (sample_report ''1'' ''c1'' (Some 1)) of
      Next st \<Rightarrow> all_context_records st = [empty_df]
    | Raised e \<Rightarrow> False
    | Returned res \<Rightarrow> False)
   \<and> current_context_records (initial_state sample_ext tight_config [''id'', ''title'', ''summary''])
       = [[''id'', ''title'', ''summary'']]
   \<and> max_tokens tight_config
       < int (batch_tokens sample_ext tight_config [''id'', ''title'', ''summary''] [])"
  by (simp add: eval_defs Let_def)

text \<open>
  Claim C1. The claim says that a report whose row overflows the current batch starts
  the next batch, and that the combined table has one row for every selected report.
  In the code the branch that closes a batch (lines 129--165) does not add the report
  that caused the overflow; only the \<^verbatim>\<open>else\<close> branch adds a row. With a budget of \<open>45\<close>
  tokens, a header of \<open>35\<close> and rows of \<open>6\<close>, two reports are selected, the second
  overflows and is lost: the combined table has one row, and the second batch is empty.
\<close>

theorem overflowing_report_is_discarded:
  "length (select_reports (min_community_rank batch_config)
             [sample_report ''1'' ''c1'' (Some 1), sample_report ''2'' ''c2'' (Some 1)]) = 2
   \<and> snd (build_community_context sample_ext batch_config
            [sample_report ''1'' ''c1'' (Some 1), sample_report ''2'' ''c2'' (Some 1)] None) =
       Inr (Batches
              [sample_to_csv ''|''
                 \<lparr>columns = [''id'', ''title'', ''summary''],
                  rows = [[CStr ''1'', CStr ''T'', CStr ''S'']]\<rparr>,
               sample_to_csv ''|'' empty_df],
            [(''reports'',
              \<lparr>columns = [''id'', ''title'', ''summary''],
               rows = [[CStr ''1'', CStr ''T'', CStr ''S'']]\<rparr>)])"
  by (simp add: eval_defs Let_def)

text \<open>
  For the same reason a report whose row alone exceeds the budget is not emitted as a
  batch of its own: with a budget of \<open>36\<close> the only report is dropped and both batches
  are empty.
\<close>

lemma oversized_report_is_dropped:
  "snd (build_community_context sample_ext (batch_config\<lparr>max_tokens := 36\<rparr>)
          [sample_report ''1'' ''c1'' (Some 1)] None) =
     Inr (Batches [sample_to_csv ''|'' empty_df, sample_to_csv ''|'' empty_df],
          [(''reports'', empty_df)])"
  by (simp add: eval_defs Let_def)

lemma single_step:
  assumes "single_batch cfg" "all_context_text st = []"
  shows "case process_report X cfg entities header cols st report of
           Raised e \<Rightarrow> True
         | Returned res \<Rightarrow> (\<exists>s. fst res = Single s)
         | Next st' \<Rightarrow> all_context_text st' = []"
  using assms by (auto simp: process_report_def Let_def split: sum.splits)

lemma single_loop:
  "single_batch cfg \<Longrightarrow> all_context_text st = [] \<Longrightarrow>
   (case run_loop X cfg entities header cols reports st of
           Raised e \<Rightarrow> True
         | Returned res \<Rightarrow> (\<exists>s. fst res = Single s)
         | Next st' \<Rightarrow> all_context_text st' = [])"
proof (induction reports arbitrary: st)
  case Nil
  then show ?case by simp
next
  case (Cons r rs)
  show ?case
  proof (cases "process_report X cfg entities header cols st r")
    case (Next st1)
    with single_step[OF Cons.prems, of X entities header cols r]
    have "all_context_text st1 = []" by simp
    from Cons.IH[OF Cons.prems(1) this] Next show ?thesis by simp
  next
    case (Raised e)
    then show ?thesis by simp
  next
    case (Returned res)
    with single_step[OF Cons.prems, of X entities header cols r] show ?thesis by simp
  qed
qed

lemma finish_one_batch:
  assumes "all_context_text st = []" "finish X cfg entities st = Inr (txt, tbl)"
  shows "\<exists>s. txt = Batches [s]"
  using assms by (auto simp: finish_def bind_err_def split: sum.splits if_splits prod.splits)

lemma build_batches_single:
  assumes "single_batch cfg" "build_batches X cfg entities selected = Inr (txt, tbl)"
  shows "(\<exists>s. txt = Single s) \<or> (\<exists>s. txt = Batches [s])"
proof (cases selected)
  case Nil
  with assms(2) show ?thesis by (simp add: build_batches_def)
next
  case (Cons first rest)
  let ?h = "make_header cfg (attribute_cols cfg first)"
  let ?run = "run_loop X cfg entities ?h (attribute_cols cfg first) selected (initial_state X cfg ?h)"
  have i: "all_context_text (initial_state X cfg ?h) = []" by (simp add: initial_state_def)
  note sl = single_loop[OF assms(1) i, of X entities ?h "attribute_cols cfg first" selected]
  show ?thesis
  proof (cases ?run)
    case (Raised e)
    with assms(2) Cons show ?thesis by (simp add: build_batches_def Let_def)
  next
    case (Returned res)
    with assms(2) Cons sl show ?thesis by (auto simp: build_batches_def Let_def)
  next
    case (Next st)
    with sl have "all_context_text st = []" by simp
    moreover from Next assms(2) Cons have "finish X cfg entities st = Inr (txt, tbl)"
      by (simp add: build_batches_def Let_def)
    ultimately show ?thesis using finish_one_batch by blast
  qed
qed


text \<open>
  Claim C3 (amended). With \<^verbatim>\<open>single_batch=True\<close> and a non-empty selection, whenever the
  builder returns, the text member is either a single string (the return of line 152,
  taken when a report overflows the budget) or a list that holds exactly one string
  (the return of line 191, taken when the budget is never exceeded).
\<close>

theorem single_batch_text_shape:
  assumes "single_batch cfg"
    and "select_reports (min_community_rank cfg) reports \<noteq> []"
    and "snd (build_community_context X cfg reports entities) = Inr (txt, tbl)"
  shows "(\<exists>s. txt = Single s) \<or> (\<exists>s. txt = Batches [s])"
proof -
  obtain reports1 err where c:
    "(if needs_weights cfg reports entities then
               compute_community_weights reports
                 (case entities of None \<Rightarrow> [] | Some es \<Rightarrow> es)
                 (community_weight_name cfg) (normalize_community_weight cfg)
             else (reports, None)) = (reports1, err)" by fastforce
  have "select_reports (min_community_rank cfg) reports1 \<noteq> []"
  proof (cases "needs_weights cfg reports entities")
    case True
    with c have "reports1 = fst (compute_community_weights reports
                 (case entities of None \<Rightarrow> [] | Some es \<Rightarrow> es)
                 (community_weight_name cfg) (normalize_community_weight cfg))" by simp
    with assms(2) show ?thesis by (simp only: select_compute) simp
  next
    case False
    with c assms(2) show ?thesis by simp
  qed
  with c assms(3) obtain sel where "build_batches X cfg entities sel = Inr (txt, tbl)"
    by (auto simp: build_community_context_def Let_def split: option.splits if_splits)
  with build_batches_single[OF assms(1)] show ?thesis by blast
qed

theorem single_batch_text_shape_witness:
  "single_batch single_tight_config
   \<and> select_reports (min_community_rank single_tight_config)
        [sample_report ''1'' ''c1'' (Some 1), sample_report ''2'' ''c2'' (Some 1)] \<noteq> []
   \<and> snd (build_community_context sample_ext single_tight_config
            [sample_report ''1'' ''c1'' (Some 1), sample_report ''2'' ''c2'' (Some 1)] None) =
       Inr (Single
              (sample_to_csv ''|''
                 \<lparr>columns = [''id'', ''title'', ''summary''],
                  rows = [[CStr ''1'', CStr ''T'', CStr ''S'']]\<rparr>),
            [(''reports'',
              \<lparr>columns = [''id'', ''title'', ''summary''],
               rows = [[CStr ''1'', CStr ''T'', CStr ''S'']]\<rparr>)])
   \<and> ((\<exists>s. Single
              (sample_to_csv ''|''
                 \<lparr>columns = [''id'', ''title'', ''summary''],
                  rows = [[CStr ''1'', CStr ''T'', CStr ''S'']]\<rparr>) = Single s)
        \<or> (\<exists>s. Single
              (sample_to_csv ''|''
                 \<lparr>columns = [''id'', ''title'', ''summary''],
                  rows = [[CStr ''1'', CStr ''T'', CStr ''S'']]\<rparr>) = Batches [s]))"
proof -
  have a: "single_batch single_tight_config"
    by (simp add: single_tight_config_def default_config_def)
  have b: "select_reports (min_community_rank single_tight_config)
        [sample_report ''1'' ''c1'' (Some 1), sample_report ''2'' ''c2'' (Some 1)] \<noteq> []"
    by (simp add: single_tight_config_def eval_defs)
  have c: "snd (build_community_context sample_ext single_tight_config
            [sample_report ''1'' ''c1'' (Some 1), sample_report ''2'' ''c2'' (Some 1)] None) =
       Inr (Single
              (sample_to_csv ''|''
                 \<lparr>columns = [''id'', ''title'', ''summary''],
                  rows = [[CStr ''1'', CStr ''T'', CStr ''S'']]\<rparr>),
            [(''reports'',
              \<lparr>columns = [''id'', ''title'', ''summary''],
               rows = [[CStr ''1'', CStr ''T'', CStr ''S'']]\<rparr>)])"
    by (simp add: single_tight_config_def eval_defs Let_def)
  from single_batch_text_shape[OF a b c] a b c show ?thesis by blast
qed

text \<open>
  The claim as stated fails when nothing overflows: one report within the default
  budget of \<open>8000\<close> tokens gives a list with one string, not a string.
\<close>

theorem single_batch_without_overflow_returns_list:
  "single_batch default_config
   \<and> select_reports (min_community_rank default_config) [sample_report ''1'' ''c1'' (Some 1)] \<noteq> []
   \<and> snd (build_community_context sample_ext default_config
            [sample_report ''1'' ''c1'' (Some 1)] None) =
       Inr (Batches
              [sample_to_csv ''|''
                 \<lparr>columns = [''id'', ''title'', ''summary''],
                  rows = [[CStr ''1'', CStr ''T'', CStr ''S'']]\<rparr>],
            [(''reports'',
              \<lparr>columns = [''id'', ''title'', ''summary''],
               rows = [[CStr ''1'', CStr ''T'', CStr ''S'']]\<rparr>)])"
  by (simp add: eval_defs Let_def)

lemma run_loop_append:
  "run_loop X cfg entities header cols (reports @ [report]) st =
     (case run_loop X cfg entities header cols reports st of
        Next st' \<Rightarrow> process_report X cfg entities header cols st' report
      | Raised e \<Rightarrow> Raised e
      | Returned res \<Rightarrow> Returned res)"
  by (induction reports arbitrary: st) (auto split: outcome.splits)

lemma close_header_only: "close_batch X cfg entities [header] = Inr empty_df"
  by (simp add: close_batch_def)

text \<open>
  Claim C10. With \<^verbatim>\<open>single_batch=False\<close>, let the last report overflow the batch that
  is open when it is reached, and let that batch close without a fault into the table
  \<open>df\<close>. The loop then ends with the header alone in the current batch. The test of
  line 175 compares the banner and header text with the rendered batch texts; as long
  as none of those equals it, the builder appends one more batch: its table is the
  empty table and its text is the rendering of the empty table, and the combined table
  gains no row from it.
\<close>

theorem trailing_empty_batch:
  assumes "\<not> single_batch cfg"
    and "cols = attribute_cols cfg (hd (reports @ [report]))"
    and "header = make_header cfg cols"
    and "run_loop X cfg entities header cols reports (initial_state X cfg header) = Next st"
    and "overflows X cfg st (report_row X cfg cols report)"
    and "close_batch X cfg entities (current_context_records st) = Inr df"
    and "header_text cfg header
           \<notin> set (all_context_text st @ [to_csv X (column_delimiter cfg) df])"
  shows "\<exists>table.
           build_batches X cfg entities (reports @ [report]) =
             Inr (Batches (all_context_text st
                             @ [to_csv X (column_delimiter cfg) df,
                                to_csv X (column_delimiter cfg) empty_df]),
                  [(lower X (context_name cfg), table)])
         \<and> pd_concat (all_context_records st @ [df, empty_df]) = Inr table
         \<and> rows table = concat (map rows (all_context_records st)) @ rows df"
proof -
  let ?st' = "st\<lparr>all_context_text := all_context_text st @ [to_csv X (column_delimiter cfg) df],
                 all_context_records := all_context_records st @ [df],
                 current_context_text := header_text cfg header,
                 current_tokens := num_tokens X (header_text cfg header),
                 current_context_records := [header]\<rparr>"
  from assms(1,5,6) have step: "process_report X cfg entities header cols st report = Next ?st'"
    by (simp add: process_report_def Let_def)
  with assms(4) have run:
    "run_loop X cfg entities header cols (reports @ [report]) (initial_state X cfg header) = Next ?st'"
    by (simp add: run_loop_append)
  obtain first rest where fr: "reports @ [report] = first # rest"
    by (cases "reports @ [report]") auto
  then have hd: "hd (reports @ [report]) = first" by simp
  from assms(7) have fin: "finish X cfg entities ?st' =
      Inr (Batches (all_context_text st
                             @ [to_csv X (column_delimiter cfg) df,
                                to_csv X (column_delimiter cfg) empty_df]),
           [(lower X (context_name cfg),
             \<lparr>columns = (case filter (\<lambda>d. columns d \<noteq> []) (all_context_records st @ [df, empty_df]) of
                             [] \<Rightarrow> []
                           | d # ds \<Rightarrow> columns d),
              rows = concat (map rows (all_context_records st @ [df, empty_df]))\<rparr>)])"
    by (simp add: finish_def bind_err_def close_header_only pd_concat_def)
  have "build_batches X cfg entities (reports @ [report]) = finish X cfg entities ?st'"
    using run assms(2,3) hd unfolding build_batches_def fr
    by (simp add: Let_def fr)
  with fin show ?thesis
    by (simp add: pd_concat_def empty_df_def)
qed

theorem trailing_empty_batch_witness:
  "\<not> single_batch batch_config
   \<and> overflows sample_ext batch_config
        \<lparr>current_context_text =
              header_text batch_config [''id'', ''title'', ''summary'']
                @ row_text batch_config [''1'', ''T'', ''S''],
            current_tokens = 41,
            current_context_records = [[''id'', ''title'', ''summary''], [''1'', ''T'', ''S'']],
            all_context_text = [],
            all_context_records = []\<rparr>
        (report_row sample_ext batch_config [] (sample_report ''2'' ''c2'' (Some 1)))
   \<and> (\<exists>table.
         build_batches sample_ext batch_config None
            ([sample_report ''1'' ''c1'' (Some 1)] @ [sample_report ''2'' ''c2'' (Some 1)]) =
           Inr (Batches
                  ([] @ [to_csv sample_ext (column_delimiter batch_config)
                     \<lparr>columns = [''id'', ''title'', ''summary''],
                      rows = [[CStr ''1'', CStr ''T'', CStr ''S'']]\<rparr>,
                   to_csv sample_ext (column_delimiter batch_config) empty_df]),
                [(lower sample_ext (context_name batch_config), table)])
       \<and> pd_concat ([] @ [\<lparr>columns = [''id'', ''title'', ''summary''],
                      rows = [[CStr ''1'', CStr ''T'', CStr ''S'']]\<rparr>, empty_df]) = Inr table
       \<and> rows table = concat (map rows []) @ [[CStr ''1'', CStr ''T'', CStr ''S'']])"
proof -
  let ?h = "[''id'', ''title'', ''summary'']"
  let ?st = "\<lparr>current_context_text =
              header_text batch_config ?h @ row_text batch_config [''1'', ''T'', ''S''],
            current_tokens = 41,
            current_context_records = [?h, [''1'', ''T'', ''S'']],
            all_context_text = [],
            all_context_records = []\<rparr>"
  let ?df = "\<lparr>columns = ?h, rows = [[CStr ''1'', CStr ''T'', CStr ''S'']]\<rparr>"
  have a: "\<not> single_batch batch_config" by (simp add: eval_defs)
  have b: "[] = attribute_cols batch_config
             (hd ([sample_report ''1'' ''c1'' (Some 1)] @ [sample_report ''2'' ''c2'' (Some 1)]))"
    by (simp add: eval_defs)
  have c: "?h = make_header batch_config []" by (simp add: eval_defs)
  have d: "run_loop sample_ext batch_config None ?h [] [sample_report ''1'' ''c1'' (Some 1)]
             (initial_state sample_ext batch_config ?h) = Next ?st"
    by (simp add: eval_defs Let_def)
  have e: "overflows sample_ext batch_config ?st
             (report_row sample_ext batch_config [] (sample_report ''2'' ''c2'' (Some 1)))"
    by (simp add: eval_defs)
  have f: "close_batch sample_ext batch_config None (current_context_records ?st) = Inr ?df"
    by (simp add: eval_defs)
  have g: "header_text batch_config ?h
             \<notin> set (all_context_text ?st @ [to_csv sample_ext (column_delimiter batch_config) ?df])"
    by (simp add: eval_defs)
  from trailing_empty_batch[OF a b c d e f g] a e show ?thesis by simp
qed

section \<open>Properties of the table sorter\<close>







text \<open>
  The key the sort reads from a row of a table of strings, once a column is cast, is
  the number parsed from the string the row has in that column.
\<close>

lemma cast_row_reads:
  assumes "cast_row X col names cells = Some cells'"
    and "length cells = length names"
    and "map_of (zip names cells) col = Some c"
  shows "\<exists>c'. cast_cell X c = Some c' \<and> map_of (zip names cells') col = Some c'"
  using assms(2,1,3)
proof (induction cells names arbitrary: cells' rule: list_induct2)
  case Nil
  then show ?case by simp
next
  case (Cons x xs n ns)
  then show ?case
    by (auto simp: cast_row_def split: option.splits if_splits)
qed

lemma those_map_all2:
  "those (map f xs) = Some ys \<Longrightarrow> list_all2 (\<lambda>x y. f x = Some y) xs ys"
  by (induction xs arbitrary: ys) (auto split: option.splits)

lemma sort_key_is_parsed_number:
  assumes "astype_float X col \<lparr>columns = header, rows = map (map CStr) records\<rparr> = Inr df1"
    and "list_all (\<lambda>r. length r = length header) records"
  shows "list_all2
           (\<lambda>r row'. \<exists>s q. map_of (zip header r) col = Some s \<and> parse_float X s = Some q
                          \<and> row_sort_key header [col] row' = [q])
           records (rows df1)"
proof -
  from assms(1) have col: "col \<in> set header"
    and th: "those (map (cast_row X col header) (map (map CStr) records)) = Some (rows df1)"
    by (auto simp: astype_float_def split: if_splits option.splits)
  from th have "those (map (\<lambda>r. cast_row X col header (map CStr r)) records) = Some (rows df1)"
    by (simp add: o_def)
  from those_map_all2[OF this]
  have a: "list_all2 (\<lambda>r row'. cast_row X col header (map CStr r) = Some row') records (rows df1)" .
  show ?thesis
  proof (rule list.rel_mono_strong[OF a])
    fix r row'
    assume r: "r \<in> set records" and c: "cast_row X col header (map CStr r) = Some row'"
    from r assms(2) have len: "length r = length header" by (simp add: list_all_iff)
    from len have "col \<in> set header \<longleftrightarrow> (\<exists>s. map_of (zip header r) col = Some s)"
      by (intro map_of_zip_is_Some) simp
    with col obtain s where s: "map_of (zip header r) col = Some s" by blast
    then have "map_of (zip header (map CStr r)) col = Some (CStr s)"
      by (simp add: zip_map2 map_of_map)
    from cast_row_reads[OF c _ this] len
    obtain c' where "cast_cell X (CStr s) = Some c'" "map_of (zip header row') col = Some c'"
      by auto
    with s show "\<exists>s q. map_of (zip header r) col = Some s \<and> parse_float X s = Some q
                          \<and> row_sort_key header [col] row' = [q]"
      by (auto simp: cast_cell_def row_sort_key_def cell_num_def)
  qed
qed










end
